theory Spec2Isabelle
  imports Complex_Main
begin

section \<open>Exceptions, events and the world the worker runs in\<close>

text \<open>
  The sequence engine (\<^verbatim>\<open>Sequence.py\<close>) talks to instrument threads, GUI widgets and a
  shared telemetry dictionary. None of these is pure, so every call the code makes is
  recorded as an \<open>event\<close> in a trace, and every source function becomes a function from
  the world before the call to a result and the world after it. A result is
  \<open>Inr v\<close> for a normal return of \<open>v\<close> and \<open>Inl e\<close> for a raised exception \<open>e\<close>;
  the world is returned in both cases, because what was done before a raise stays done.
  Python floats are modelled by exact reals.
\<close>

datatype exn =
    BreakCondition
  | KeyError
  | TypeError
  | ValueError
  | ZeroDivisionError
  | HardwareFault nat

datatype widget = ITC_window | ILM_window | IPS_window | LakeShore350_window

datatype event =
    SetEnabled widget bool
  | Gettoset_Temperature real
  | SetTemperature
  | Gettoset_Temp_K real
  | SetTemp_K
  | Read_Sensor_1_K
  | Sleep real
  | Sig_aborted
  | Loopcontrol_threads bool
  | Read_Temperatures
  | Getto_setCurrent_A real
  | SetCurrent_A real
  | Read_Voltage

text \<open>
  The world: the trace of calls issued so far, a logical clock that counts the sleeps the
  worker has finished, the number of instrument calls issued, the private flag
  \<^verbatim>\<open>self.__isRunning\<close> and the current the source is driving.
\<close>

record world =
  trace :: "event list"
  clock :: nat
  calls :: nat
  isRunning :: bool
  source_current :: real

text \<open>
  The environment is everything the worker does not control: the value of
  \<^verbatim>\<open>data['LakeShore350']['Sensor_1_K']\<close> at each logical time (\<open>None\<close> when the key is
  not there), whether another thread calls \<^verbatim>\<open>stop()\<close> while the worker sleeps, whether
  the k-th instrument call raises, and what the instruments answer.
\<close>

record env =
  sensor :: "nat \<Rightarrow> real option"
  stop_during :: "nat \<Rightarrow> bool"
  hw_fault :: "nat \<Rightarrow> bool"
  temperature :: "nat \<Rightarrow> real"
  voltage :: "real \<Rightarrow> nat \<Rightarrow> real"

type_synonym 'a result = "(exn + 'a) \<times> world"

definition log :: "event \<Rightarrow> world \<Rightarrow> world" where
  "log ev w = w\<lparr>trace := trace w @ [ev]\<rparr>"

text \<open>An instrument call that returns nothing: it is issued, then returns or raises.\<close>

definition call :: "env \<Rightarrow> event \<Rightarrow> world \<Rightarrow> unit result" where
  "call env ev w =
     (let w' = (log ev w)\<lparr>calls := Suc (calls w)\<rparr>
      in if hw_fault env (calls w) then (Inl (HardwareFault (calls w)), w') else (Inr (), w'))"

text \<open>An instrument call that returns a reading.\<close>

definition query :: "env \<Rightarrow> event \<Rightarrow> real \<Rightarrow> world \<Rightarrow> real result" where
  "query env ev answer w =
     (let w' = (log ev w)\<lparr>calls := Suc (calls w)\<rparr>
      in if hw_fault env (calls w) then (Inl (HardwareFault (calls w)), w') else (Inr answer, w'))"

text \<open>\<^verbatim>\<open>stop()\<close>: sets the flag, and nothing ever sets it back.\<close>

definition stop :: "world \<Rightarrow> world" where
  "stop w = w\<lparr>isRunning := False\<rparr>"

text \<open>
  \<^verbatim>\<open>time.sleep(d)\<close> raises ValueError on a negative duration. While the worker sleeps
  another thread may call \<^verbatim>\<open>stop()\<close>.
\<close>

definition sleep :: "env \<Rightarrow> real \<Rightarrow> world \<Rightarrow> unit result" where
  "sleep env d w =
     (if d < 0 then (Inl ValueError, w)
      else let w' = (log (Sleep d) w)\<lparr>clock := Suc (clock w)\<rparr>
           in (Inr (), if stop_during env (clock w) then stop w' else w'))"

text \<open>The locked read of \<^verbatim>\<open>self.mainthread.data['LakeShore350']['Sensor_1_K']\<close>.\<close>

definition read_Sensor_1_K :: "env \<Rightarrow> world \<Rightarrow> real result" where
  "read_Sensor_1_K env w =
     (case sensor env (clock w) of
        None \<Rightarrow> (Inl KeyError, w)
      | Some v \<Rightarrow> (Inr v, log Read_Sensor_1_K w))"

section \<open>The resistance measurement\<close>

text \<open>
  \<^verbatim>\<open>conf\<close> as \<^verbatim>\<open>measure_resistance\<close> reads it. A thread name is a Python string or
  \<^verbatim>\<open>None\<close>. The dictionary \<^verbatim>\<open>conf['threads']\<close> is represented by the set of its keys:
  subscripting it with a name that is not a key raises KeyError, and the thread found
  under a key is taken to offer the method called on it (what it answers is in the
  environment). \<open>current_applied\<close> is \<^verbatim>\<open>None\<close> until it is set, \<open>n_measurements\<close> is a
  Python int. The dictionary is built with all these keys by \<^verbatim>\<open>OneShot_Thread\<close>, so
  reading a key of \<^verbatim>\<open>conf\<close> itself succeeds; \<^verbatim>\<open>store_signal\<close> is not read by
  \<^verbatim>\<open>measure_resistance\<close> and is left out.
\<close>

record conf =
  threads :: "string option set"
  threadname_Temp :: "string option"
  threadname_RES :: "string option"
  threadname_CURR :: "string option"
  current_applied :: "real option"
  n_measurements :: int

text \<open>
  The dictionary \<^verbatim>\<open>self.conf\<close> that \<^verbatim>\<open>OneShot_Thread.__init__\<close> builds from the thread
  table of the main thread.
\<close>

definition OneShot_Thread_conf :: "string option set \<Rightarrow> conf" where
  "OneShot_Thread_conf mainthread_threads =
     \<lparr>threads = mainthread_threads,
      threadname_Temp = Some ''control_LakeShore350'',
      threadname_RES = None,
      threadname_CURR = None,
      current_applied = None,
      n_measurements = 10\<rparr>"

text \<open>\<^verbatim>\<open>conf['threads'][name]\<close>\<close>

definition thread_lookup :: "conf \<Rightarrow> string option \<Rightarrow> exn + unit" where
  "thread_lookup cf name = (if name \<in> threads cf then Inr () else Inl KeyError)"

text \<open>\<^verbatim>\<open>conf['current_applied']*currentfactor\<close>: \<^verbatim>\<open>None\<close> times a number is a TypeError.\<close>

definition current_times :: "conf \<Rightarrow> real \<Rightarrow> exn + real" where
  "current_times cf currentfactor =
     (case current_applied cf of
        None \<Rightarrow> Inl TypeError
      | Some i \<Rightarrow> Inr (i * currentfactor))"

record data =
  T_mean_K :: "real option"
  T_std_K :: "real option"
  R_mean_Ohm :: "real option"
  R_std_Ohm :: "real option"

text \<open>\<^verbatim>\<open>np.mean\<close> and \<^verbatim>\<open>np.std\<close>; on an empty list both give nan, which is \<open>None\<close> here.\<close>

definition np_mean :: "real list \<Rightarrow> real option" where
  "np_mean xs = (if xs = [] then None else Some (sum_list xs / real (length xs)))"

definition np_std :: "real list \<Rightarrow> real option" where
  "np_std xs =
     (case np_mean xs of
        None \<Rightarrow> None
      | Some m \<Rightarrow> Some (sqrt (sum_list (map (\<lambda>x. (x - m)\<^sup>2) xs) / real (length xs))))"

text \<open>
  The body of the inner loop for one \<open>currentfactor\<close>, lines 41 to 44. In each call
  expression the thread is looked up first and the argument is computed next, both
  before the call is issued: a thread name that is not in the table raises KeyError,
  and an unset current raises TypeError, with no call issued.
\<close>

definition measure_polarity :: "env \<Rightarrow> conf \<Rightarrow> real \<Rightarrow> real list \<Rightarrow> world \<Rightarrow> (real list) result" where
  "measure_polarity env cf currentfactor resistances w =
     (case thread_lookup cf (threadname_CURR cf) of
        Inl e \<Rightarrow> (Inl e, w)
      | Inr _ \<Rightarrow>
     (case current_times cf currentfactor of
        Inl e \<Rightarrow> (Inl e, w)
      | Inr a \<Rightarrow>
     (case call env (Getto_setCurrent_A a) w of
        (Inl e, w1) \<Rightarrow> (Inl e, w1)
      | (Inr _, w1) \<Rightarrow>
     (case thread_lookup cf (threadname_CURR cf) of
        Inl e \<Rightarrow> (Inl e, w1)
      | Inr _ \<Rightarrow>
     (case current_times cf currentfactor of
        Inl e \<Rightarrow> (Inl e, w1)
      | Inr a' \<Rightarrow>
     (case call env (SetCurrent_A a') w1 of
        (Inl e, w2) \<Rightarrow> (Inl e, w2)
      | (Inr _, w2) \<Rightarrow>
     (let w3 = w2\<lparr>source_current := a'\<rparr>
      in case thread_lookup cf (threadname_RES cf) of
           Inl e \<Rightarrow> (Inl e, w3)
         | Inr _ \<Rightarrow>
     (case query env Read_Voltage (voltage env (source_current w3) (calls w3)) w3 of
        (Inl e, w4) \<Rightarrow> (Inl e, w4)
      | (Inr v, w4) \<Rightarrow>
     (let voltage' = v * currentfactor
      in case current_times cf currentfactor of
           Inl e \<Rightarrow> (Inl e, w4)
         | Inr d \<Rightarrow>
            if d = 0 then (Inl ZeroDivisionError, w4)
            else (Inr (resistances @ [voltage' / d]), w4))))))))))"

text \<open>\<^verbatim>\<open>for currentfactor in [1, -1]\<close>\<close>

fun polarity_loop :: "env \<Rightarrow> conf \<Rightarrow> real list \<Rightarrow> real list \<Rightarrow> world \<Rightarrow> (real list) result" where
  "polarity_loop env cf [] resistances w = (Inr resistances, w)"
| "polarity_loop env cf (currentfactor # rest) resistances w =
     (case measure_polarity env cf currentfactor resistances w of
        (Inl e, w') \<Rightarrow> (Inl e, w')
      | (Inr resistances', w') \<Rightarrow> polarity_loop env cf rest resistances' w')"

text \<open>\<^verbatim>\<open>for idx in range(conf['n_measurements'])\<close>, by the number of iterations left.\<close>

fun measurement_loop :: "env \<Rightarrow> conf \<Rightarrow> nat \<Rightarrow> real list \<Rightarrow> world \<Rightarrow> (real list) result" where
  "measurement_loop env cf 0 resistances w = (Inr resistances, w)"
| "measurement_loop env cf (Suc k) resistances w =
     (case polarity_loop env cf [1, -1] resistances w of
        (Inl e, w') \<Rightarrow> (Inl e, w')
      | (Inr resistances', w') \<Rightarrow> measurement_loop env cf k resistances' w')"

definition measure_resistance :: "env \<Rightarrow> conf \<Rightarrow> world \<Rightarrow> data result" where
  "measure_resistance env cf w =
     (case call env (Loopcontrol_threads False) w of
        (Inl e, w1) \<Rightarrow> (Inl e, w1)
      | (Inr _, w1) \<Rightarrow>
     (case thread_lookup cf (threadname_Temp cf) of
        Inl e \<Rightarrow> (Inl e, w1)
      | Inr _ \<Rightarrow>
     (case query env Read_Temperatures (temperature env (calls w1)) w1 of
        (Inl e, w2) \<Rightarrow> (Inl e, w2)
      | (Inr t1, w2) \<Rightarrow>
     (case measurement_loop env cf (nat (n_measurements cf)) [] w2 of
        (Inl e, w3) \<Rightarrow> (Inl e, w3)
      | (Inr resistances, w3) \<Rightarrow>
     (case thread_lookup cf (threadname_Temp cf) of
        Inl e \<Rightarrow> (Inl e, w3)
      | Inr _ \<Rightarrow>
     (case query env Read_Temperatures (temperature env (calls w3)) w3 of
        (Inl e, w4) \<Rightarrow> (Inl e, w4)
      | (Inr t2, w4) \<Rightarrow>
     (case call env (Loopcontrol_threads True) w4 of
        (Inl e, w5) \<Rightarrow> (Inl e, w5)
      | (Inr _, w5) \<Rightarrow>
         (Inr \<lparr>T_mean_K = np_mean [t1, t2], T_std_K = np_std [t1, t2],
               R_mean_Ohm = np_mean resistances, R_std_Ohm = np_std resistances\<rparr>, w5))))))))"

section \<open>The sequence engine\<close>

text \<open>
  A sequence entry is a dictionary; a key that is not there is \<open>None\<close>, and reading it
  raises KeyError. The keys \<^verbatim>\<open>'typ'\<close> and \<^verbatim>\<open>'Field'\<close> are the fields \<open>typ_key\<close> and
  \<open>Field_T\<close>, since Isabelle reserves the shorter names.
\<close>

record entry =
  typ_key :: "string option"
  sequence_temperature :: "real list option"
  Temp :: "real option"
  Field_T :: "real option"
  Delay :: "real option"

record Sequence_Thread =
  sequence_of :: "entry list"
  temp_VTI_offset :: real

definition init_Sequence_Thread :: "entry list \<Rightarrow> Sequence_Thread" where
  "init_Sequence_Thread s = \<lparr>sequence_of = s, temp_VTI_offset = 5\<rparr>"

definition setTempVTIOffset :: "real \<Rightarrow> Sequence_Thread \<Rightarrow> Sequence_Thread" where
  "setTempVTIOffset offset self = self\<lparr>temp_VTI_offset := offset\<rparr>"

text \<open>Lines 83 and 84 of \<^verbatim>\<open>running\<close>.\<close>

definition temp_setpoint_VTI :: "real \<Rightarrow> real \<Rightarrow> real" where
  "temp_setpoint_VTI offset temp_setpoint_sample =
     (let v = temp_setpoint_sample - offset in if v < 4.3 then 4.3 else v)"

text \<open>\<^verbatim>\<open>check_Temp_in_Scan\<close> is \<^verbatim>\<open>pass\<close>.\<close>

definition check_Temp_in_Scan :: "real \<Rightarrow> world \<Rightarrow> unit result" where
  "check_Temp_in_Scan Temp_target w = (Inr (), w)"

text \<open>
  \<^verbatim>\<open>for temp_setpoint_sample in entry['sequence_temperature']\<close>. The thread table of the
  main thread is built outside these sources; it is taken to hold the two fixed names
  \<^verbatim>\<open>'control_ITC'\<close> and \<^verbatim>\<open>'control_LakeShore350'\<close> that the loop body subscripts it with.
\<close>

fun scan_T_loop :: "env \<Rightarrow> real \<Rightarrow> real list \<Rightarrow> world \<Rightarrow> unit result" where
  "scan_T_loop env offset [] w = (Inr (), w)"
| "scan_T_loop env offset (temp_setpoint_sample # rest) w =
     (case call env (Gettoset_Temperature (temp_setpoint_VTI offset temp_setpoint_sample)) w of
        (Inl e, w1) \<Rightarrow> (Inl e, w1)
      | (Inr _, w1) \<Rightarrow>
     (case call env SetTemperature w1 of
        (Inl e, w2) \<Rightarrow> (Inl e, w2)
      | (Inr _, w2) \<Rightarrow>
     (case call env (Gettoset_Temp_K temp_setpoint_sample) w2 of
        (Inl e, w3) \<Rightarrow> (Inl e, w3)
      | (Inr _, w3) \<Rightarrow>
     (case call env SetTemp_K w3 of
        (Inl e, w4) \<Rightarrow> (Inl e, w4)
      | (Inr _, w4) \<Rightarrow>
     (case check_Temp_in_Scan temp_setpoint_sample w4 of
        (Inl e, w5) \<Rightarrow> (Inl e, w5)
      | (Inr _, w5) \<Rightarrow> scan_T_loop env offset rest w5)))))"

text \<open>
  The \<^verbatim>\<open>while\<close> loop of \<^verbatim>\<open>wait_for_Temp\<close>. It has no bound in the source, so the model
  takes fuel: one unit per iteration, and \<open>None\<close> when the fuel is used up before the
  loop condition turns false. Leaving the loop costs no fuel.
\<close>

fun wait_loop :: "nat \<Rightarrow> env \<Rightarrow> real \<Rightarrow> real \<Rightarrow> real \<Rightarrow> world \<Rightarrow> (unit result) option" where
  "wait_loop 0 env Temp_target threshold Temp_now w =
     (if \<bar>Temp_now - Temp_target\<bar> > threshold then None else Some (Inr (), w))"
| "wait_loop (Suc fuel) env Temp_target threshold Temp_now w =
     (if \<bar>Temp_now - Temp_target\<bar> > threshold then
        (case read_Sensor_1_K env w of
           (Inl e, w1) \<Rightarrow> Some (Inl e, w1)
         | (Inr Temp_now', w1) \<Rightarrow>
            (case sleep env 0.1 w1 of
               (Inl e, w2) \<Rightarrow> Some (Inl e, w2)
             | (Inr _, w2) \<Rightarrow> wait_loop fuel env Temp_target threshold Temp_now' w2))
      else Some (Inr (), w))"

definition wait_for_Temp :: "nat \<Rightarrow> env \<Rightarrow> real \<Rightarrow> real \<Rightarrow> world \<Rightarrow> (unit result) option" where
  "wait_for_Temp fuel env Temp_target threshold w =
     (if \<not> isRunning w then Some (Inl BreakCondition, w)
      else case read_Sensor_1_K env w of
             (Inl e, w1) \<Rightarrow> Some (Inl e, w1)
           | (Inr Temp_now, w1) \<Rightarrow> wait_loop fuel env Temp_target threshold Temp_now w1)"

definition wait_for_Field :: "env \<Rightarrow> real \<Rightarrow> world \<Rightarrow> unit result" where
  "wait_for_Field env Field_target w =
     (if \<not> isRunning w then (Inl BreakCondition, w) else sleep env 0.1 w)"

text \<open>The body of \<^verbatim>\<open>if entry['typ'] == 'Wait'\<close>; the threshold is the default 0.01.\<close>

definition wait_entry :: "nat \<Rightarrow> env \<Rightarrow> entry \<Rightarrow> world \<Rightarrow> (unit result) option" where
  "wait_entry fuel env e w =
     (case Temp e of
        None \<Rightarrow> Some (Inl KeyError, w)
      | Some T \<Rightarrow>
         (case wait_for_Temp fuel env T 0.01 w of
            None \<Rightarrow> None
          | Some (Inl ex, w1) \<Rightarrow> Some (Inl ex, w1)
          | Some (Inr _, w1) \<Rightarrow>
             (case Field_T e of
                None \<Rightarrow> Some (Inl KeyError, w1)
              | Some F \<Rightarrow>
                 (case wait_for_Field env F w1 of
                    (Inl ex, w2) \<Rightarrow> Some (Inl ex, w2)
                  | (Inr _, w2) \<Rightarrow>
                     (case Delay e of
                        None \<Rightarrow> Some (Inl KeyError, w2)
                      | Some d \<Rightarrow> Some (sleep env d w2))))))"

text \<open>The body of \<^verbatim>\<open>if entry['typ'] == 'scan_T'\<close>.\<close>

definition scan_T_entry :: "env \<Rightarrow> real \<Rightarrow> entry \<Rightarrow> world \<Rightarrow> unit result" where
  "scan_T_entry env offset e w =
     (case sequence_temperature e of
        None \<Rightarrow> (Inl KeyError, w)
      | Some temps \<Rightarrow> scan_T_loop env offset temps w)"

text \<open>One pass of \<^verbatim>\<open>for entry in self.sequence\<close>: two independent \<^verbatim>\<open>if\<close>s, in this order.\<close>

definition run_entry :: "nat \<Rightarrow> env \<Rightarrow> real \<Rightarrow> entry \<Rightarrow> world \<Rightarrow> (unit result) option" where
  "run_entry fuel env offset e w =
     (case typ_key e of
        None \<Rightarrow> Some (Inl KeyError, w)
      | Some ty \<Rightarrow>
         (case (if ty = ''scan_T'' then scan_T_entry env offset e w else (Inr (), w)) of
            (Inl ex, w1) \<Rightarrow> Some (Inl ex, w1)
          | (Inr _, w1) \<Rightarrow>
             (if ty = ''Wait'' then wait_entry fuel env e w1 else Some (Inr (), w1))))"

fun run_entries :: "nat \<Rightarrow> env \<Rightarrow> real \<Rightarrow> entry list \<Rightarrow> world \<Rightarrow> (unit result) option" where
  "run_entries fuel env offset [] w = Some (Inr (), w)"
| "run_entries fuel env offset (e # es) w =
     (case run_entry fuel env offset e w of
        None \<Rightarrow> None
      | Some (Inl ex, w1) \<Rightarrow> Some (Inl ex, w1)
      | Some (Inr _, w1) \<Rightarrow> run_entries fuel env offset es w1)"

definition widgets :: "widget list" where
  "widgets = [ITC_window, ILM_window, IPS_window, LakeShore350_window]"

text \<open>The four \<^verbatim>\<open>widgetSetpoints.setEnabled(b)\<close> calls, in the order of the source.\<close>

definition setEnabled_all :: "bool \<Rightarrow> world \<Rightarrow> world" where
  "setEnabled_all b w = w\<lparr>trace := trace w @ map (\<lambda>x. SetEnabled x b) widgets\<rparr>"

text \<open>
  \<^verbatim>\<open>running\<close>: the \<^verbatim>\<open>try\<close> body, the \<^verbatim>\<open>except BreakCondition\<close> clause that emits
  \<^verbatim>\<open>sig_aborted\<close> and returns \<^verbatim>\<open>'Aborted!'\<close>, and the \<^verbatim>\<open>finally\<close> clause that runs on
  every way out. A run that completes returns Python's \<^verbatim>\<open>None\<close>.
\<close>

definition running :: "nat \<Rightarrow> env \<Rightarrow> Sequence_Thread \<Rightarrow> world \<Rightarrow> ((string option) result) option" where
  "running fuel env self w =
     (case run_entries fuel env (temp_VTI_offset self) (sequence_of self) (setEnabled_all False w) of
        None \<Rightarrow> None
      | Some (Inr _, w1) \<Rightarrow> Some (Inr None, setEnabled_all True w1)
      | Some (Inl ex, w1) \<Rightarrow>
         (if ex = BreakCondition
          then Some (Inr (Some ''Aborted!''), setEnabled_all True (log Sig_aborted w1))
          else Some (Inl ex, setEnabled_all True w1)))"

section \<open>The transport layer\<close>

text \<open>
  An exception object of \<^verbatim>\<open>drivers.py\<close>: its class and its \<^verbatim>\<open>args\<close>. The library that
  defines \<^verbatim>\<open>VisaIOError\<close> is not part of the repository, so the \<^verbatim>\<open>args\<close> it builds from
  an error code are a parameter \<open>mk_args\<close>. The library defines no subclass of
  \<^verbatim>\<open>VisaIOError\<close>, so \<^verbatim>\<open>isinstance\<close> against it is equality of the class.
\<close>

datatype exc_class = VisaIOError | OtherError string





section \<open>Observations on traces and concrete inputs\<close>

text \<open>The intermediate-stage setpoints commanded in a trace, in order.\<close>

fun vti_setpoints :: "event list \<Rightarrow> real list" where
  "vti_setpoints [] = []"
| "vti_setpoints (Gettoset_Temperature v # evs) = v # vti_setpoints evs"
| "vti_setpoints (ev # evs) = vti_setpoints evs"

text \<open>
  A quiet rig: the sensor reads 0 K, nobody calls \<^verbatim>\<open>stop()\<close>, no call raises, and the
  voltmeter sees a 2 Ohm sample with a 1 V offset.
\<close>

definition env0 :: env where
  "env0 = \<lparr>sensor = (\<lambda>t. Some 0), stop_during = (\<lambda>t. False), hw_fault = (\<lambda>k. False),
            temperature = (\<lambda>k. 4), voltage = (\<lambda>i k. i * 2 + 1)\<rparr>"

definition w0 :: world where
  "w0 = \<lparr>trace = [], clock = 0, calls = 0, isRunning = True, source_current = 0\<rparr>"

text \<open>Entries as the sequence editor writes them, and one of a type the engine does not know.\<close>

definition mk_scan_T :: "real list \<Rightarrow> entry" where
  "mk_scan_T temps = \<lparr>typ_key = Some ''scan_T'', sequence_temperature = Some temps,
                       Temp = None, Field_T = None, Delay = None\<rparr>"

definition mk_Wait :: "real \<Rightarrow> real \<Rightarrow> real \<Rightarrow> entry" where
  "mk_Wait T F d = \<lparr>typ_key = Some ''Wait'', sequence_temperature = None,
                     Temp = Some T, Field_T = Some F, Delay = Some d\<rparr>"

definition mk_other :: "string \<Rightarrow> entry" where
  "mk_other ty = \<lparr>typ_key = Some ty, sequence_temperature = None,
                   Temp = None, Field_T = None, Delay = None\<rparr>"

text \<open>
  The events a run has added to the trace, and the currents commanded among them
  (both phases of the two-phase set count).
\<close>

definition issued :: "world \<Rightarrow> world \<Rightarrow> event list" where
  "issued w w' = drop (length (trace w)) (trace w')"

fun current_commands :: "event list \<Rightarrow> real list" where
  "current_commands [] = []"
| "current_commands (Getto_setCurrent_A v # evs) = v # current_commands evs"
| "current_commands (SetCurrent_A v # evs) = v # current_commands evs"
| "current_commands (ev # evs) = current_commands evs"

text \<open>The calls of one pass of the outer measurement loop that completes, at current \<open>i\<close>.\<close>

definition cycle :: "real \<Rightarrow> event list" where
  "cycle i = [Getto_setCurrent_A i, SetCurrent_A i, Read_Voltage,
              Getto_setCurrent_A (- i), SetCurrent_A (- i), Read_Voltage]"

text \<open>
  The simulated sample of the offset-cancellation test: a resistance \<open>R\<close> and a constant
  offset voltage, so that the voltmeter reads \<open>i * R + V_off\<close> at current \<open>i\<close>.
\<close>

definition simulated :: "real \<Rightarrow> real \<Rightarrow> env" where
  "simulated R V_off = env0\<lparr>voltage := (\<lambda>i k. i * R + V_off)\<rparr>"

text \<open>The quiet rig, except that instrument call number \<open>n\<close> (from 0) raises.\<close>

definition fault_at :: "nat \<Rightarrow> env" where
  "fault_at n = env0\<lparr>hw_fault := (\<lambda>k. k = n)\<rparr>"

text \<open>
  The sensor sits at 0 K for three polls and then reads 10 K; another thread calls
  \<^verbatim>\<open>stop()\<close> during the worker's first sleep.
\<close>

definition env_stop :: env where
  "env_stop = env0\<lparr>sensor := (\<lambda>t. if t < 3 then Some 0 else Some 10),
                   stop_during := (\<lambda>t. t = 0)\<rparr>"

text \<open>
  The thread table of a rig with a thermometer, a voltmeter and a current source; the
  names of the last two are not fixed by the source.
\<close>

definition rig_threads :: "string option set" where
  "rig_threads = {Some ''control_LakeShore350'', Some ''control_Voltmeter'',
                  Some ''control_CurrentSource''}"

text \<open>
  One measurement at 1 A; and the default configuration after the names of the voltmeter
  and of the current source have been communicated, but not the current.
\<close>

definition conf_1A :: conf where
  "conf_1A = \<lparr>threads = rig_threads,
              threadname_Temp = Some ''control_LakeShore350'',
              threadname_RES = Some ''control_Voltmeter'',
              threadname_CURR = Some ''control_CurrentSource'',
              current_applied = Some 1, n_measurements = 1\<rparr>"

definition conf_unset :: conf where
  "conf_unset = (OneShot_Thread_conf rig_threads)
                  \<lparr>threadname_RES := Some ''control_Voltmeter'',
                   threadname_CURR := Some ''control_CurrentSource''\<rparr>"

text \<open>Traces that do not touch the setpoint widgets.\<close>

fun is_SetEnabled :: "event \<Rightarrow> bool" where
  "is_SetEnabled (SetEnabled x b) = True"
| "is_SetEnabled ev = False"

definition quiet :: "world \<Rightarrow> world \<Rightarrow> bool" where
  "quiet w w' = (take (length (trace w)) (trace w') = trace w
                 \<and> filter is_SetEnabled (issued w w') = [])"

section \<open>Basic facts about calls\<close>

lemma call_ok:
  "\<not> hw_fault env (calls w) \<Longrightarrow>
   call env ev w = (Inr (), w\<lparr>trace := trace w @ [ev], calls := Suc (calls w)\<rparr>)"
  by (simp add: call_def log_def Let_def)

lemma call_trace: "call env ev w = (r, w') \<Longrightarrow>
   trace w' = trace w @ [ev] \<and> calls w' = Suc (calls w) \<and> source_current w' = source_current w
   \<and> clock w' = clock w \<and> isRunning w' = isRunning w"
  by (auto simp: call_def log_def Let_def split: if_splits)

lemma query_trace: "query env ev a w = (r, w') \<Longrightarrow>
   trace w' = trace w @ [ev] \<and> calls w' = Suc (calls w) \<and> source_current w' = source_current w
   \<and> clock w' = clock w \<and> isRunning w' = isRunning w"
  by (auto simp: query_def log_def Let_def split: if_splits)

lemma query_Inr: "query env ev a w = (Inr v, w') \<Longrightarrow> v = a"
  by (auto simp: query_def Let_def split: if_splits)

lemma query_ok:
  "\<not> hw_fault env (calls w) \<Longrightarrow>
   query env ev a w = (Inr a, w\<lparr>trace := trace w @ [ev], calls := Suc (calls w)\<rparr>)"
  by (simp add: query_def log_def Let_def)

lemma vti_setpoints_append: "vti_setpoints (xs @ ys) = vti_setpoints xs @ vti_setpoints ys"
  by (induction xs rule: vti_setpoints.induct) simp_all

section \<open>The intermediate-stage setpoint\<close>

lemma temp_setpoint_VTI_max: "temp_setpoint_VTI offset t = max 4.3 (t - offset)"
  by (simp add: temp_setpoint_VTI_def Let_def max_def)

lemma scan_T_loop_ok:
  "\<forall>k. \<not> hw_fault env k \<Longrightarrow>
   scan_T_loop env offset ts w =
     (Inr (), w\<lparr>trace := trace w @ concat (map (\<lambda>t. [Gettoset_Temperature (max 4.3 (t - offset)),
          SetTemperature, Gettoset_Temp_K t, SetTemp_K]) ts), calls := calls w + 4 * length ts\<rparr>)"
proof (induction ts arbitrary: w)
  case Nil
  show ?case by simp
next
  case (Cons t ts)
  then show ?case
    by (simp add: call_ok check_Temp_in_Scan_def temp_setpoint_VTI_max)
qed

text \<open>
  Claim C5. The intermediate-stage setpoint computed for a target \<open>t\<close> is
  \<open>max 4.3 (t - offset)\<close>, for every target and every offset; and in a scan over the
  targets \<open>ts\<close> in which no instrument call raises, the intermediate-stage setpoints the
  engine commands are these values, in the order of the targets. With the default offset
  of 5 K the targets 10 K and 3 K give 5 K and 4.3 K.
\<close>

theorem scan_T_setpoints:
  "temp_setpoint_VTI offset t = max 4.3 (t - offset)
   \<and> ((\<forall>k. \<not> hw_fault env k) \<longrightarrow>
        vti_setpoints (trace (snd (scan_T_loop env offset ts w)))
          = vti_setpoints (trace w) @ map (\<lambda>t. max 4.3 (t - offset)) ts)"
proof (intro conjI impI)
  show "temp_setpoint_VTI offset t = max 4.3 (t - offset)"
    by (rule temp_setpoint_VTI_max)
next
  assume nf: "\<forall>k. \<not> hw_fault env k"
  have "vti_setpoints (concat (map (\<lambda>t. [Gettoset_Temperature (max 4.3 (t - offset)),
          SetTemperature, Gettoset_Temp_K t, SetTemp_K]) ts)) = map (\<lambda>t. max 4.3 (t - offset)) ts"
    by (induction ts) simp_all
  then show "vti_setpoints (trace (snd (scan_T_loop env offset ts w)))
          = vti_setpoints (trace w) @ map (\<lambda>t. max 4.3 (t - offset)) ts"
    by (simp add: scan_T_loop_ok[OF nf] vti_setpoints_append)
qed

theorem scan_T_setpoints_witness:
  "map (temp_setpoint_VTI (temp_VTI_offset (init_Sequence_Thread []))) [10, 3] = [5, 4.3]
   \<and> (\<forall>k. \<not> hw_fault env0 k)
   \<and> vti_setpoints (trace (snd (scan_T_loop env0 (temp_VTI_offset (init_Sequence_Thread [])) [10, 3] w0)))
       = [5, 4.3]"
proof -
  have h: "\<forall>k. \<not> hw_fault env0 k" by (simp add: env0_def)
  show ?thesis
    using h scan_T_setpoints[of "temp_VTI_offset (init_Sequence_Thread [])" 10 env0 "[10, 3]" w0]
      scan_T_setpoints[of "temp_VTI_offset (init_Sequence_Thread [])" 3 env0 "[10, 3]" w0]
    by (simp add: w0_def init_Sequence_Thread_def)
qed

section \<open>The convergence wait\<close>

text \<open>
  Claim C6. If the worker has not been stopped and the first reading of the sensor is
  within the threshold of the target, \<^verbatim>\<open>wait_for_Temp\<close> returns at once, whatever the
  fuel: the only thing it has done is the one read, and it has not slept.
\<close>

theorem wait_for_Temp_immediate:
  assumes "isRunning w" and "sensor env (clock w) = Some v" and "\<bar>v - Temp_target\<bar> \<le> threshold"
  shows "wait_for_Temp fuel env Temp_target threshold w = Some (Inr (), log Read_Sensor_1_K w)"
  using assms by (cases fuel) (simp_all add: wait_for_Temp_def read_Sensor_1_K_def)

theorem wait_for_Temp_immediate_witness:
  "isRunning w0 \<and> sensor env0 (clock w0) = Some 0 \<and> \<bar>0 - 0.005\<bar> \<le> (0.01::real)
   \<and> wait_for_Temp 0 env0 0.005 0.01 w0 = Some (Inr (), w0\<lparr>trace := [Read_Sensor_1_K]\<rparr>)"
proof -
  have a: "isRunning w0" and b: "sensor env0 (clock w0) = Some 0"
    and c: "\<bar>0 - 0.005\<bar> \<le> (0.01::real)"
    by (simp_all add: w0_def env0_def)
  show ?thesis using a b c wait_for_Temp_immediate[OF a b c, of 0]
    by (simp add: log_def w0_def)
qed

section \<open>Entries of an unknown type\<close>

text \<open>
  Claim C10. An entry whose \<^verbatim>\<open>'typ'\<close> is neither \<^verbatim>\<open>'scan_T'\<close> nor \<^verbatim>\<open>'Wait'\<close> returns
  normally and leaves the world as it was (no call, no wait, no sleep); a sequence that
  contains it runs exactly as the sequence without it; and the steps around it are
  executed in their order: when no instrument call raises, a scan over \<open>ts1\<close>, the
  unknown entry, a scan over \<open>ts2\<close> and a scan over \<open>ts3\<close> return normally after
  issuing exactly the four calls of every target of \<open>ts1\<close>, then of \<open>ts2\<close>, then of
  \<open>ts3\<close>.
\<close>

theorem unknown_typ_skipped:
  assumes "typ_key e = Some ty" and "ty \<noteq> ''scan_T''" and "ty \<noteq> ''Wait''"
  shows "run_entry fuel env offset e w = Some (Inr (), w)
       \<and> run_entries fuel env offset (pre @ e # post) w = run_entries fuel env offset (pre @ post) w
       \<and> ((\<forall>k. \<not> hw_fault env k) \<longrightarrow>
            run_entries fuel env offset [mk_scan_T ts1, e, mk_scan_T ts2, mk_scan_T ts3] w =
              Some (Inr (),
                    w\<lparr>trace := trace w
                         @ concat (map (\<lambda>t. [Gettoset_Temperature (max 4.3 (t - offset)),
                                            SetTemperature, Gettoset_Temp_K t, SetTemp_K])
                                       (ts1 @ ts2 @ ts3)),
                      calls := calls w + 4 * length (ts1 @ ts2 @ ts3)\<rparr>))"
proof (intro conjI impI)
  show skip: "run_entry fuel env offset e w = Some (Inr (), w)" for w
    using assms by (simp add: run_entry_def)
  show "run_entries fuel env offset (pre @ e # post) w = run_entries fuel env offset (pre @ post) w"
  proof (induction pre arbitrary: w)
    case Nil
    show ?case by (simp add: skip)
  next
    case (Cons a pre)
    show ?case by (simp add: Cons.IH split: option.splits prod.splits sum.splits)
  qed
  assume nf: "\<forall>k. \<not> hw_fault env k"
  have scan: "run_entry fuel env offset (mk_scan_T ts) w =
      Some (Inr (), w\<lparr>trace := trace w @ concat (map (\<lambda>t. [Gettoset_Temperature (max 4.3 (t - offset)),
          SetTemperature, Gettoset_Temp_K t, SetTemp_K]) ts), calls := calls w + 4 * length ts\<rparr>)" for ts w
    by (simp add: run_entry_def mk_scan_T_def scan_T_entry_def scan_T_loop_ok[OF nf])
  show "run_entries fuel env offset [mk_scan_T ts1, e, mk_scan_T ts2, mk_scan_T ts3] w =
              Some (Inr (),
                    w\<lparr>trace := trace w
                         @ concat (map (\<lambda>t. [Gettoset_Temperature (max 4.3 (t - offset)),
                                            SetTemperature, Gettoset_Temp_K t, SetTemp_K])
                                       (ts1 @ ts2 @ ts3)),
                      calls := calls w + 4 * length (ts1 @ ts2 @ ts3)\<rparr>)"
    by (simp add: skip scan)
qed

theorem unknown_typ_skipped_witness:
  "typ_key (mk_other ''scan_B'') = Some ''scan_B'' \<and> ''scan_B'' \<noteq> ''scan_T'' \<and> ''scan_B'' \<noteq> ''Wait''
   \<and> (\<forall>k. \<not> hw_fault env0 k)
   \<and> run_entry 0 env0 5 (mk_other ''scan_B'') w0 = Some (Inr (), w0)
   \<and> run_entries 0 env0 5 ([mk_scan_T [10]] @ mk_other ''scan_B'' # [mk_scan_T [3]]) w0
       = run_entries 0 env0 5 ([mk_scan_T [10]] @ [mk_scan_T [3]]) w0
   \<and> run_entries 0 env0 5 [mk_scan_T [10], mk_other ''scan_B'', mk_scan_T [3], mk_scan_T [20]] w0 =
       Some (Inr (),
             \<lparr>trace = [Gettoset_Temperature 5, SetTemperature, Gettoset_Temp_K 10, SetTemp_K,
                       Gettoset_Temperature 4.3, SetTemperature, Gettoset_Temp_K 3, SetTemp_K,
                       Gettoset_Temperature 15, SetTemperature, Gettoset_Temp_K 20, SetTemp_K],
              clock = 0, calls = 12, isRunning = True, source_current = 0\<rparr>)"
proof -
  have a: "typ_key (mk_other ''scan_B'') = Some ''scan_B''" by (simp add: mk_other_def)
  have b: "''scan_B'' \<noteq> ''scan_T''" and c: "''scan_B'' \<noteq> ''Wait''" by simp_all
  have h: "\<forall>k. \<not> hw_fault env0 k" by (simp add: env0_def)
  show ?thesis
    using a b c h
      unknown_typ_skipped[OF a b c, of 0 env0 5 w0 "[mk_scan_T [10]]" "[mk_scan_T [3]]" "[10]" "[3]" "[20]"]
    by (simp add: w0_def)
qed

section \<open>The transport layer's buffer clearing\<close>


section \<open>What a completed measurement has done\<close>

lemma measure_polarity_Inr:
  assumes "measure_polarity env cf c rs w = (Inr rs', w')" and "current_applied cf = Some i"
  shows "i * c \<noteq> 0
     \<and> trace w' = trace w @ [Getto_setCurrent_A (i * c), SetCurrent_A (i * c), Read_Voltage]
     \<and> source_current w' = i * c \<and> calls w' = calls w + 3
     \<and> rs' = rs @ [voltage env (i * c) (calls w + 2) * c / (i * c)]"
proof -
  obtain r1 w1 where c1: "call env (Getto_setCurrent_A (i * c)) w = (r1, w1)"
    by (cases "call env (Getto_setCurrent_A (i * c)) w")
  obtain r2 w2 where c2: "call env (SetCurrent_A (i * c)) w1 = (r2, w2)"
    by (cases "call env (SetCurrent_A (i * c)) w1")
  define w3 where "w3 = w2\<lparr>source_current := i * c\<rparr>"
  obtain r4 w4 where c4: "query env Read_Voltage (voltage env (source_current w3) (calls w3)) w3 = (r4, w4)"
    by (cases "query env Read_Voltage (voltage env (source_current w3) (calls w3)) w3")
  note t1 = call_trace[OF c1] and t2 = call_trace[OF c2] and t4 = query_trace[OF c4]
  have ct: "current_times cf c = Inr (i * c)"
    using assms(2) by (simp add: current_times_def)
  from assms(1) c1 c2 c4 obtain v where r4: "r4 = Inr v" and nz: "i * c \<noteq> 0" and w': "w' = w4"
      and rs': "rs' = rs @ [v * c / (i * c)]"
    by (auto simp: measure_polarity_def ct Let_def w3_def split: sum.splits if_splits)
  from c4 r4 have v: "v = voltage env (source_current w3) (calls w3)" using query_Inr by blast
  have "calls w3 = calls w + 2" "source_current w3 = i * c"
       "trace w3 = trace w @ [Getto_setCurrent_A (i * c), SetCurrent_A (i * c)]"
    using t1 t2 by (simp_all add: w3_def)
  with t4 v rs' nz w' show ?thesis by simp
qed

lemma polarity_loop_Inr:
  assumes "polarity_loop env cf [1, - 1] rs w = (Inr rs', w')" and "current_applied cf = Some i"
  shows "i \<noteq> 0 \<and> trace w' = trace w @ cycle i
     \<and> source_current w' = - i \<and> calls w' = calls w + 6
     \<and> rs' = rs @ [voltage env i (calls w + 2) / i, voltage env (- i) (calls w + 5) * - 1 / (- i)]"
proof -
  obtain r1 w1 where p1: "measure_polarity env cf 1 rs w = (r1, w1)"
    by (cases "measure_polarity env cf 1 rs w")
  with assms obtain rs1 where r1: "r1 = Inr rs1" by (cases r1) auto
  obtain r2 w2 where p2: "measure_polarity env cf (- 1) rs1 w1 = (r2, w2)"
    by (cases "measure_polarity env cf (- 1) rs1 w1")
  with assms p1 r1 have r2: "r2 = Inr rs'" and w2: "w2 = w'" by (cases r2; simp)+
  from measure_polarity_Inr[OF p1[unfolded r1] assms(2)]
       measure_polarity_Inr[OF p2[unfolded r2 w2] assms(2)]
  show ?thesis by (simp add: cycle_def add.commute)
qed

lemma measurement_loop_Inr:
  assumes "measurement_loop env cf k rs w = (Inr rs', w')" and "current_applied cf = Some i"
  shows "trace w' = trace w @ concat (replicate k (cycle i))
       \<and> (0 < k \<longrightarrow> i \<noteq> 0 \<and> source_current w' = - i)"
  using assms(1)
proof (induction k arbitrary: rs w)
  case 0
  then show ?case by simp
next
  case (Suc k)
  obtain r1 w1 where p: "polarity_loop env cf [1, - 1] rs w = (r1, w1)"
    by (cases "polarity_loop env cf [1, - 1] rs w")
  with Suc.prems obtain rs1 where r1: "r1 = Inr rs1" by (cases r1) auto
  with Suc.prems p have rest: "measurement_loop env cf k rs1 w1 = (Inr rs', w')" by simp
  note a = polarity_loop_Inr[OF p[unfolded r1] assms(2)] and b = Suc.IH[OF rest]
  show ?case
  proof (cases k)
    case 0
    with rest have "w' = w1" by simp
    with a b 0 show ?thesis by simp
  next
    case (Suc j)
    with a b show ?thesis by simp
  qed
qed

lemma current_commands_append:
  "current_commands (xs @ ys) = current_commands xs @ current_commands ys"
  by (induction xs rule: current_commands.induct) simp_all

lemma current_commands_cycles:
  "current_commands (concat (replicate k (cycle i))) = concat (replicate k [i, i, - i, - i])"
  by (induction k) (simp_all add: current_commands_append cycle_def)

lemma last_cycles: "0 < k \<Longrightarrow> last (concat (replicate k [i, i, - i, - i :: real])) = - i"
  by (induction k) (auto simp: last_append)

lemma set_cycles: "set (concat (replicate k [i, i, - i, - i :: real])) \<subseteq> {i, - i}"
  by (induction k) auto

lemma measure_resistance_Inr:
  assumes "measure_resistance env cf w = (Inr d, w')" and "current_applied cf = Some i"
  shows "trace w' = trace w @ [Loopcontrol_threads False, Read_Temperatures]
            @ concat (replicate (nat (n_measurements cf)) (cycle i))
            @ [Read_Temperatures, Loopcontrol_threads True]
       \<and> (1 \<le> n_measurements cf \<longrightarrow> i \<noteq> 0 \<and> source_current w' = - i)"
proof -
  obtain r1 w1 where c1: "call env (Loopcontrol_threads False) w = (r1, w1)"
    by (cases "call env (Loopcontrol_threads False) w")
  obtain r2 w2 where c2: "query env Read_Temperatures (temperature env (calls w1)) w1 = (r2, w2)"
    by (cases "query env Read_Temperatures (temperature env (calls w1)) w1")
  obtain r3 w3 where c3: "measurement_loop env cf (nat (n_measurements cf)) [] w2 = (r3, w3)"
    by (cases "measurement_loop env cf (nat (n_measurements cf)) [] w2")
  obtain r4 w4 where c4: "query env Read_Temperatures (temperature env (calls w3)) w3 = (r4, w4)"
    by (cases "query env Read_Temperatures (temperature env (calls w3)) w3")
  obtain r5 w5 where c5: "call env (Loopcontrol_threads True) w4 = (r5, w5)"
    by (cases "call env (Loopcontrol_threads True) w4")
  from assms(1) c1 c2 c3 c4 c5 obtain rs where r3: "r3 = Inr rs" and w': "w' = w5"
    by (auto simp: measure_resistance_def split: sum.splits)
  note t1 = call_trace[OF c1] and t2 = query_trace[OF c2] and t4 = query_trace[OF c4]
    and t5 = call_trace[OF c5] and t3 = measurement_loop_Inr[OF c3[unfolded r3] assms(2)]
  show ?thesis using t1 t2 t3 t4 t5 w' by simp
qed

lemmas run_simps = measure_resistance_def measure_polarity_def thread_lookup_def current_times_def
  call_def query_def log_def np_mean_def Let_def env0_def w0_def rig_threads_def
  OneShot_Thread_conf_def conf_1A_def conf_unset_def simulated_def fault_at_def

lemma run_1A: "snd (measure_resistance env0 conf_1A w0) = 
   \<lparr>trace = [Loopcontrol_threads False, Read_Temperatures] @ cycle 1 @ [Read_Temperatures, Loopcontrol_threads True],
    clock = 0, calls = 10, isRunning = True, source_current = - 1\<rparr>"
  by (simp add: run_simps cycle_def)

lemma run_1A_ok: "\<exists>d. fst (measure_resistance env0 conf_1A w0) = Inr d"
  by (simp add: run_simps)

text \<open>
  Claim C9. When the applied current \<open>i\<close> is set, at least one measurement is asked for
  and \<^verbatim>\<open>measure_resistance\<close> returns, the run has commanded currents, the last current it
  commanded is \<open>- i\<close>, none of the currents it commanded is zero, and the source is left
  driving \<open>- i\<close>.
\<close>

theorem last_current_command_negative:
  assumes "current_applied cf = Some i" and "1 \<le> n_measurements cf"
    and "measure_resistance env cf w = (Inr d, w')"
  shows "current_commands (issued w w') \<noteq> []
       \<and> last (current_commands (issued w w')) = - i
       \<and> 0 \<notin> set (current_commands (issued w w'))
       \<and> source_current w' = - i"
proof -
  let ?k = "nat (n_measurements cf)"
  from assms(2) have k: "0 < ?k" by simp
  note m = measure_resistance_Inr[OF assms(3) assms(1)]
  with assms(2) have nz: "i \<noteq> 0" and sc: "source_current w' = - i" by simp_all
  from m have cc: "current_commands (issued w w') = concat (replicate ?k [i, i, - i, - i])"
    by (simp add: issued_def current_commands_append current_commands_cycles)
  from k obtain j where j: "?k = Suc j" by (cases ?k) simp_all
  have ne: "concat (replicate ?k [i, i, - i, - i]) \<noteq> []" by (simp add: j)
  have "0 \<notin> set (concat (replicate ?k [i, i, - i, - i]))"
    using set_cycles[of ?k i] nz by auto
  with cc ne last_cycles[OF k, of i] sc show ?thesis by simp
qed

theorem last_current_command_negative_witness:
  "current_applied conf_1A = Some 1 \<and> 1 \<le> n_measurements conf_1A
   \<and> (\<exists>d. measure_resistance env0 conf_1A w0 = (Inr d, snd (measure_resistance env0 conf_1A w0)))
   \<and> current_commands (issued w0 (snd (measure_resistance env0 conf_1A w0))) \<noteq> []
   \<and> last (current_commands (issued w0 (snd (measure_resistance env0 conf_1A w0)))) = - 1
   \<and> 0 \<notin> set (current_commands (issued w0 (snd (measure_resistance env0 conf_1A w0))))
   \<and> source_current (snd (measure_resistance env0 conf_1A w0)) = - 1"
proof -
  have a: "current_applied conf_1A = Some 1" and b: "1 \<le> n_measurements conf_1A"
    by (simp_all add: conf_1A_def)
  obtain d where d: "fst (measure_resistance env0 conf_1A w0) = Inr d"
    using run_1A_ok by blast
  then have c: "measure_resistance env0 conf_1A w0 = (Inr d, snd (measure_resistance env0 conf_1A w0))"
    by (simp add: prod_eq_iff)
  show ?thesis using a b c last_current_command_negative[OF a b c] by blast
qed

section \<open>The mean resistance under a constant offset\<close>

lemma measure_polarity_ok:
  assumes "\<forall>k. \<not> hw_fault env k" and "current_applied cf = Some i" and "i * c \<noteq> 0"
    and "threadname_CURR cf \<in> threads cf" and "threadname_RES cf \<in> threads cf"
  shows "\<exists>w'. measure_polarity env cf c rs w
            = (Inr (rs @ [voltage env (i * c) (calls w + 2) * c / (i * c)]), w')"
  using assms
  by (simp add: measure_polarity_def thread_lookup_def current_times_def call_ok query_ok Let_def)

lemma polarity_loop_simulated:
  assumes "\<forall>k. \<not> hw_fault env k" and "voltage env = (\<lambda>i k. i * R + V_off)"
    and "current_applied cf = Some i" and "i \<noteq> 0"
    and "threadname_CURR cf \<in> threads cf" and "threadname_RES cf \<in> threads cf"
  shows "\<exists>w'. polarity_loop env cf [1, - 1] rs w = (Inr (rs @ [R + V_off / i, - R + V_off / i]), w')"
proof -
  from assms have a: "i * 1 \<noteq> 0" and b: "i * - 1 \<noteq> 0" by simp_all
  obtain w1 where p1: "measure_polarity env cf 1 rs w
        = (Inr (rs @ [voltage env (i * 1) (calls w + 2) * 1 / (i * 1)]), w1)"
    using measure_polarity_ok[OF assms(1) assms(3) a assms(5,6)] by blast
  obtain w2 where p2: "measure_polarity env cf (- 1) (rs @ [voltage env (i * 1) (calls w + 2) * 1 / (i * 1)]) w1
        = (Inr ((rs @ [voltage env (i * 1) (calls w + 2) * 1 / (i * 1)])
             @ [voltage env (i * - 1) (calls w1 + 2) * - 1 / (i * - 1)]), w2)"
    using measure_polarity_ok[OF assms(1) assms(3) b assms(5,6)] by blast
  have v1: "voltage env i n / i = R + V_off / i" for n
    using assms(2,4) by (simp add: field_simps)
  have v2: "voltage env (- i) n / i = V_off / i - R" for n
    using assms(2,4) by (simp add: field_simps)
  show ?thesis using p1 p2 by (simp add: v1 v2)
qed

lemma measurement_loop_simulated:
  assumes "\<forall>k. \<not> hw_fault env k" and "voltage env = (\<lambda>i k. i * R + V_off)"
    and "current_applied cf = Some i" and "i \<noteq> 0"
    and "threadname_CURR cf \<in> threads cf" and "threadname_RES cf \<in> threads cf"
  shows "\<exists>rs' w'. measurement_loop env cf k rs w = (Inr rs', w')
           \<and> sum_list rs' = sum_list rs + real k * (2 * V_off / i)
           \<and> length rs' = length rs + 2 * k"
proof (induction k arbitrary: rs w)
  case 0
  show ?case by simp
next
  case (Suc k)
  obtain w1 where p: "polarity_loop env cf [1, - 1] rs w = (Inr (rs @ [R + V_off / i, - R + V_off / i]), w1)"
    using polarity_loop_simulated[OF assms] by blast
  obtain rs' w' where m: "measurement_loop env cf k (rs @ [R + V_off / i, - R + V_off / i]) w1 = (Inr rs', w')"
      and s: "sum_list rs' = sum_list (rs @ [R + V_off / i, - R + V_off / i]) + real k * (2 * V_off / i)"
      and l: "length rs' = length (rs @ [R + V_off / i, - R + V_off / i]) + 2 * k"
    using Suc.IH by blast
  show ?case using p m s l assms(4) by (simp add: field_simps)
qed

lemma mean_is_offset_over_current:
  assumes "\<forall>k. \<not> hw_fault env k" and "voltage env = (\<lambda>i k. i * R + V_off)"
    and "current_applied cf = Some i" and "i \<noteq> 0"
    and "threadname_CURR cf \<in> threads cf" and "threadname_RES cf \<in> threads cf"
    and "threadname_Temp cf \<in> threads cf" and "1 \<le> n_measurements cf"
  shows "\<exists>d w'. measure_resistance env cf w = (Inr d, w') \<and> R_mean_Ohm d = Some (V_off / i)"
proof -
  let ?k = "nat (n_measurements cf)"
  let ?w2 = "w\<lparr>trace := trace w @ [Loopcontrol_threads False], calls := Suc (calls w)\<rparr>
              \<lparr>trace := trace (w\<lparr>trace := trace w @ [Loopcontrol_threads False], calls := Suc (calls w)\<rparr>) @ [Read_Temperatures],
                calls := Suc (calls (w\<lparr>trace := trace w @ [Loopcontrol_threads False], calls := Suc (calls w)\<rparr>))\<rparr>"
  obtain rs' w3 where m: "measurement_loop env cf ?k [] ?w2 = (Inr rs', w3)"
      and s: "sum_list rs' = sum_list [] + real ?k * (2 * V_off / i)"
      and l: "length rs' = length ([]::real list) + 2 * ?k"
    using measurement_loop_simulated[OF assms(1-6)] by blast
  from assms(8) have k: "0 < ?k" by simp
  with l have ne: "rs' \<noteq> []" by auto
  have mean: "np_mean rs' = Some (V_off / i)"
    using ne s l k assms(4) by (simp add: np_mean_def field_simps)
  show ?thesis
    using assms(1,7) m mean by (simp add: measure_resistance_def thread_lookup_def call_ok query_ok)
qed

text \<open>
  Claim C1 says that with readings \<open>V(i) = i * R + V_off\<close> the mean resistance is \<open>R\<close>
  whatever the offset. The code multiplies the reading by the polarity and then divides
  by the current times the polarity, so the two samples of a pass are \<open>R + V_off / i\<close>
  and \<open>- R + V_off / i\<close>: the resistance cancels and the offset stays
  (\<open>mean_is_offset_over_current\<close>). At \<open>R = 2\<close>, \<open>V_off = 1\<close>, \<open>i = 1\<close> and one
  measurement the run returns normally with a mean of 1 Ohm, not 2.
\<close>

theorem mean_is_not_resistance:
  "map_sum id R_mean_Ohm (fst (measure_resistance (simulated 2 1) conf_1A w0)) = Inr (Some 1)"
  by (simp add: run_simps)

section \<open>An unset current\<close>





section \<open>A fault between pause and resume\<close>

text \<open>
  Claim C7 says that the control loop is resumed even if a step between pause and
  resume fails. The code has no cleanup around these steps: when the first voltage read
  raises, the exception leaves \<^verbatim>\<open>measure_resistance\<close> with the loop paused, the source
  driving 1 A, and \<^verbatim>\<open>loopcontrol_threads(..., True)\<close> never called.
\<close>

theorem control_loop_left_paused:
  "measure_resistance (fault_at 4) conf_1A w0 =
     (Inl (HardwareFault 4),
      w0\<lparr>trace := [Loopcontrol_threads False, Read_Temperatures, Getto_setCurrent_A 1,
                   SetCurrent_A 1, Read_Voltage], calls := 5, source_current := 1\<rparr>)"
  by (simp add: run_simps)

section \<open>Stopping a run\<close>

lemmas wait_simps = wait_for_Temp_def read_Sensor_1_K_def sleep_def stop_def log_def Let_def
  env_stop_def env0_def w0_def

lemma wait_loop_never_returns:
  assumes "\<forall>t. sensor env t = Some v" and "\<bar>v - T\<bar> > thr"
  shows "wait_loop fuel env T thr v w = None"
  using assms by (induction fuel arbitrary: w) (simp_all add: read_Sensor_1_K_def sleep_def Let_def)

lemma wait_for_Temp_never_cancelled:
  assumes "\<forall>t. sensor env t = Some v" and "\<bar>v - T\<bar> > thr" and "isRunning w"
  shows "wait_for_Temp fuel env T thr w = None"
  using assms by (simp add: wait_for_Temp_def read_Sensor_1_K_def wait_loop_never_returns)

text \<open>
  Claim C2 says that once \<^verbatim>\<open>stop()\<close> has been called the next suspension point aborts
  the run with no further hardware write. The code reads the flag only on entry to
  \<^verbatim>\<open>wait_for_Temp\<close> and \<^verbatim>\<open>wait_for_Field\<close>. A wait in progress keeps polling and
  sleeping after \<^verbatim>\<open>stop()\<close> and returns normally once the sensor converges (and never
  returns if it does not, \<open>wait_for_Temp_never_cancelled\<close>); a scan step of a thread
  that was stopped before it ran still commands both setpoints, and the run completes.
\<close>

theorem stop_ignored_in_wait_and_scan:
  "wait_for_Temp 4 env_stop 10 0.01 w0 =
     Some (Inr (), \<lparr>trace = [Read_Sensor_1_K, Read_Sensor_1_K, Sleep 0.1, Read_Sensor_1_K, Sleep 0.1,
                             Read_Sensor_1_K, Sleep 0.1, Read_Sensor_1_K, Sleep 0.1],
                    clock = 4, calls = 0, isRunning = False, source_current = 0\<rparr>)
   \<and> running 0 env0 (init_Sequence_Thread [mk_scan_T [10]]) (stop w0) =
     Some (Inr None, \<lparr>trace = map (\<lambda>x. SetEnabled x False) widgets
                        @ [Gettoset_Temperature 5, SetTemperature, Gettoset_Temp_K 10, SetTemp_K]
                        @ map (\<lambda>x. SetEnabled x True) widgets,
                      clock = 0, calls = 4, isRunning = False, source_current = 0\<rparr>)"
proof
  have n: "(4::nat) = Suc (Suc (Suc (Suc 0)))" by simp
  show "wait_for_Temp 4 env_stop 10 0.01 w0 =
     Some (Inr (), \<lparr>trace = [Read_Sensor_1_K, Read_Sensor_1_K, Sleep 0.1, Read_Sensor_1_K, Sleep 0.1,
                             Read_Sensor_1_K, Sleep 0.1, Read_Sensor_1_K, Sleep 0.1],
                    clock = 4, calls = 0, isRunning = False, source_current = 0\<rparr>)"
    unfolding n by (simp add: wait_simps)
  show "running 0 env0 (init_Sequence_Thread [mk_scan_T [10]]) (stop w0) =
     Some (Inr None, \<lparr>trace = map (\<lambda>x. SetEnabled x False) widgets
                        @ [Gettoset_Temperature 5, SetTemperature, Gettoset_Temp_K 10, SetTemp_K]
                        @ map (\<lambda>x. SetEnabled x True) widgets,
                      clock = 0, calls = 4, isRunning = False, source_current = 0\<rparr>)"
    by (simp add: running_def init_Sequence_Thread_def mk_scan_T_def run_entry_def scan_T_entry_def
        setEnabled_all_def widgets_def call_def log_def Let_def check_Temp_in_Scan_def
        temp_setpoint_VTI_def stop_def env0_def w0_def)
qed

section \<open>The setpoint widgets around a run\<close>

text \<open>Nothing inside the \<^verbatim>\<open>try\<close> body after the first four lines touches the widgets.\<close>

lemma quiet_iff:
  "quiet w w' \<longleftrightarrow> (\<exists>mid. trace w' = trace w @ mid \<and> filter is_SetEnabled mid = [])"
proof
  assume q: "quiet w w'"
  then have "trace w' = trace w @ issued w w'"
    by (metis append_take_drop_id issued_def quiet_def)
  with q show "\<exists>mid. trace w' = trace w @ mid \<and> filter is_SetEnabled mid = []"
    by (auto simp: quiet_def)
next
  assume "\<exists>mid. trace w' = trace w @ mid \<and> filter is_SetEnabled mid = []"
  then show "quiet w w'" by (auto simp: quiet_def issued_def)
qed

lemma quiet_refl: "quiet w w"
  by (simp add: quiet_iff)

lemma quiet_trans: "quiet w w1 \<Longrightarrow> quiet w1 w2 \<Longrightarrow> quiet w w2"
  by (auto simp: quiet_iff)

lemma quiet_step: "trace w' = trace w @ [ev] \<Longrightarrow> \<not> is_SetEnabled ev \<Longrightarrow> quiet w w'"
  by (simp add: quiet_iff)

lemma quiet_call: "call env ev w = (r, w') \<Longrightarrow> \<not> is_SetEnabled ev \<Longrightarrow> quiet w w'"
  using call_trace quiet_step by blast

lemma quiet_sleep: "sleep env d w = (r, w') \<Longrightarrow> quiet w w'"
  by (auto simp: sleep_def log_def stop_def Let_def quiet_iff split: if_splits)

lemma quiet_read: "read_Sensor_1_K env w = (r, w') \<Longrightarrow> quiet w w'"
  by (auto simp: read_Sensor_1_K_def log_def quiet_iff split: option.splits)

lemma quiet_scan_T_loop: "scan_T_loop env offset ts w = (r, w') \<Longrightarrow> quiet w w'"
proof (induction ts arbitrary: w)
  case Nil
  then show ?case by (simp add: quiet_refl)
next
  case (Cons t ts)
  obtain r1 w1 where c1: "call env (Gettoset_Temperature (temp_setpoint_VTI offset t)) w = (r1, w1)"
    by (cases "call env (Gettoset_Temperature (temp_setpoint_VTI offset t)) w")
  obtain r2 w2 where c2: "call env SetTemperature w1 = (r2, w2)"
    by (cases "call env SetTemperature w1")
  obtain r3 w3 where c3: "call env (Gettoset_Temp_K t) w2 = (r3, w3)"
    by (cases "call env (Gettoset_Temp_K t) w2")
  obtain r4 w4 where c4: "call env SetTemp_K w3 = (r4, w4)"
    by (cases "call env SetTemp_K w3")
  have q1: "quiet w w1" using quiet_call[OF c1] by simp
  have q2: "quiet w w2" using quiet_trans[OF q1 quiet_call[OF c2]] by simp
  have q3: "quiet w w3" using quiet_trans[OF q2 quiet_call[OF c3]] by simp
  have q4: "quiet w w4" using quiet_trans[OF q3 quiet_call[OF c4]] by simp
  from Cons.prems c1 c2 c3 c4 consider
      "w' = w1" | "w' = w2" | "w' = w3" | "w' = w4" | "scan_T_loop env offset ts w4 = (r, w')"
    by (auto simp: check_Temp_in_Scan_def split: sum.splits)
  then show ?case
  proof cases
    case 5
    from quiet_trans[OF q4 Cons.IH[OF 5]] show ?thesis .
  qed (simp_all add: q1 q2 q3 q4)
qed

lemma quiet_wait_loop: "wait_loop fuel env T thr now w = Some (r, w') \<Longrightarrow> quiet w w'"
proof (induction fuel arbitrary: now w)
  case 0
  then show ?case by (auto simp: quiet_refl split: if_splits)
next
  case (Suc fuel)
  show ?case
  proof (cases "\<bar>now - T\<bar> > thr")
    case False
    with Suc.prems show ?thesis by (simp add: quiet_refl)
  next
    case True
    obtain r1 w1 where c1: "read_Sensor_1_K env w = (r1, w1)"
      by (cases "read_Sensor_1_K env w")
    obtain r2 w2 where c2: "sleep env 0.1 w1 = (r2, w2)"
      by (cases "sleep env 0.1 w1")
    have q1: "quiet w w1" by (rule quiet_read[OF c1])
    have q2: "quiet w w2" by (rule quiet_trans[OF q1 quiet_sleep[OF c2]])
    from Suc.prems True c1 c2 consider
        "w' = w1" | "w' = w2" | now' where "wait_loop fuel env T thr now' w2 = Some (r, w')"
      by (auto split: sum.splits)
    then show ?thesis
    proof cases
      case 3
      from quiet_trans[OF q2 Suc.IH[OF 3]] show ?thesis .
    qed (simp_all add: q1 q2)
  qed
qed

lemma quiet_wait_for_Temp: "wait_for_Temp fuel env T thr w = Some (r, w') \<Longrightarrow> quiet w w'"
proof -
  assume a: "wait_for_Temp fuel env T thr w = Some (r, w')"
  obtain r1 w1 where c1: "read_Sensor_1_K env w = (r1, w1)"
    by (cases "read_Sensor_1_K env w")
  have q1: "quiet w w1" by (rule quiet_read[OF c1])
  from a c1 consider "w' = w" | "w' = w1" | now where "wait_loop fuel env T thr now w1 = Some (r, w')"
    by (auto simp: wait_for_Temp_def split: if_splits sum.splits)
  then show ?thesis
  proof cases
    case 3
    from quiet_trans[OF q1 quiet_wait_loop[OF 3]] show ?thesis .
  qed (simp_all add: q1 quiet_refl)
qed

lemma quiet_wait_for_Field: "wait_for_Field env F w = (r, w') \<Longrightarrow> quiet w w'"
  by (auto simp: wait_for_Field_def quiet_refl quiet_sleep split: if_splits)

lemma quiet_wait_entry: "wait_entry fuel env e w = Some (r, w') \<Longrightarrow> quiet w w'"
proof -
  assume a: "wait_entry fuel env e w = Some (r, w')"
  show ?thesis
  proof (cases "Temp e")
    case None
    with a show ?thesis by (simp add: wait_entry_def quiet_refl)
  next
    case (Some T)
    with a obtain r1 w1 where t: "wait_for_Temp fuel env T 0.01 w = Some (r1, w1)"
      by (cases "wait_for_Temp fuel env T 0.01 w") (auto simp: wait_entry_def)
    have q1: "quiet w w1" by (rule quiet_wait_for_Temp[OF t])
    show ?thesis
    proof (cases "Field_T e")
      case None
      with a Some t have "w' = w1" by (auto simp: wait_entry_def split: sum.splits)
      with q1 show ?thesis by simp
    next
      case F: (Some F)
      obtain r2 w2 where f: "wait_for_Field env F w1 = (r2, w2)"
        by (cases "wait_for_Field env F w1")
      have q2: "quiet w w2" by (rule quiet_trans[OF q1 quiet_wait_for_Field[OF f]])
      from a Some t F f consider "w' = w1" | "w' = w2" | d where "sleep env d w2 = (r, w')"
        by (auto simp: wait_entry_def split: sum.splits option.splits)
      then show ?thesis
      proof cases
        case 3
        from quiet_trans[OF q2 quiet_sleep[OF 3]] show ?thesis .
      qed (simp_all add: q1 q2)
    qed
  qed
qed

lemma quiet_scan_T_entry: "scan_T_entry env offset e w = (r, w') \<Longrightarrow> quiet w w'"
  by (auto simp: scan_T_entry_def quiet_refl quiet_scan_T_loop split: option.splits)

lemma quiet_run_entry: "run_entry fuel env offset e w = Some (r, w') \<Longrightarrow> quiet w w'"
proof -
  assume a: "run_entry fuel env offset e w = Some (r, w')"
  show ?thesis
  proof (cases "typ_key e")
    case None
    with a show ?thesis by (simp add: run_entry_def quiet_refl)
  next
    case (Some ty)
    obtain r1 w1 where s: "(if ty = ''scan_T'' then scan_T_entry env offset e w else (Inr (), w)) = (r1, w1)"
      by (cases "if ty = ''scan_T'' then scan_T_entry env offset e w else (Inr (), w)")
    have q1: "quiet w w1"
      using s by (auto simp: quiet_refl quiet_scan_T_entry split: if_splits)
    from a Some s consider "w' = w1" | "wait_entry fuel env e w1 = Some (r, w')"
      by (auto simp: run_entry_def split: sum.splits if_splits)
    then show ?thesis
    proof cases
      case 2
      from quiet_trans[OF q1 quiet_wait_entry[OF 2]] show ?thesis .
    qed (simp add: q1)
  qed
qed

lemma quiet_run_entries: "run_entries fuel env offset es w = Some (r, w') \<Longrightarrow> quiet w w'"
proof (induction es arbitrary: w)
  case Nil
  then show ?case by (simp add: quiet_refl)
next
  case (Cons e es)
  from Cons.prems obtain r1 w1 where s: "run_entry fuel env offset e w = Some (r1, w1)"
    by (cases "run_entry fuel env offset e w") auto
  have q1: "quiet w w1" by (rule quiet_run_entry[OF s])
  from Cons.prems s consider "w' = w1" | "run_entries fuel env offset es w1 = Some (r, w')"
    by (auto split: sum.splits)
  then show ?case
  proof cases
    case 2
    from quiet_trans[OF q1 Cons.IH[OF 2]] show ?thesis .
  qed (simp add: q1)
qed

text \<open>The three ways a run ends: a fault in the second instrument call, an abort, completion.\<close>

lemma run_faulty:
  "running 0 (fault_at 1) (init_Sequence_Thread [mk_scan_T [10]]) w0 =
     Some (Inl (HardwareFault 1),
           \<lparr>trace = map (\<lambda>x. SetEnabled x False) widgets
                    @ [Gettoset_Temperature 5, SetTemperature]
                    @ map (\<lambda>x. SetEnabled x True) widgets,
            clock = 0, calls = 2, isRunning = True, source_current = 0\<rparr>)"
  by (simp add: running_def init_Sequence_Thread_def mk_scan_T_def run_entry_def scan_T_entry_def
        setEnabled_all_def widgets_def call_def log_def Let_def check_Temp_in_Scan_def
        temp_setpoint_VTI_def fault_at_def env0_def w0_def)

lemma run_aborted:
  "running 0 env0 (init_Sequence_Thread [mk_scan_T [10], mk_Wait 0 0 1]) (stop w0) =
     Some (Inr (Some ''Aborted!''),
           \<lparr>trace = map (\<lambda>x. SetEnabled x False) widgets
                    @ [Gettoset_Temperature 5, SetTemperature, Gettoset_Temp_K 10, SetTemp_K, Sig_aborted]
                    @ map (\<lambda>x. SetEnabled x True) widgets,
            clock = 0, calls = 4, isRunning = False, source_current = 0\<rparr>)"
  by (simp add: running_def init_Sequence_Thread_def mk_scan_T_def mk_Wait_def run_entry_def
        scan_T_entry_def wait_entry_def wait_for_Temp_def
        setEnabled_all_def widgets_def call_def log_def Let_def check_Temp_in_Scan_def
        temp_setpoint_VTI_def stop_def env0_def w0_def)

lemma run_completed:
  "running 0 env0 (init_Sequence_Thread [mk_scan_T [4.3], mk_Wait 0 0 1]) w0 =
     Some (Inr None,
           \<lparr>trace = map (\<lambda>x. SetEnabled x False) widgets
                    @ [Gettoset_Temperature 4.3, SetTemperature, Gettoset_Temp_K 4.3, SetTemp_K,
                       Read_Sensor_1_K, Sleep 0.1, Sleep 1]
                    @ map (\<lambda>x. SetEnabled x True) widgets,
            clock = 2, calls = 4, isRunning = True, source_current = 0\<rparr>)"
  by (simp add: running_def init_Sequence_Thread_def mk_scan_T_def mk_Wait_def run_entry_def
        scan_T_entry_def wait_entry_def wait_for_Temp_def wait_for_Field_def read_Sensor_1_K_def
        sleep_def setEnabled_all_def widgets_def call_def log_def Let_def check_Temp_in_Scan_def
        temp_setpoint_VTI_def stop_def env0_def w0_def)

text \<open>
  Claim C4. Whenever \<^verbatim>\<open>running\<close> ends, with whatever outcome (completed, aborted or an
  exception raised inside a step), what it has added to the trace is: the four
  \<^verbatim>\<open>setEnabled(False)\<close> calls, then events none of which enables or disables a widget,
  then the four \<^verbatim>\<open>setEnabled(True)\<close> calls. So every widget is disabled exactly once, at
  the start, and enabled exactly once, at the end.
\<close>

theorem controls_disabled_and_enabled_once:
  assumes "running fuel env self w = Some (r, w')"
  shows "\<exists>mid. trace w' = trace w @ map (\<lambda>x. SetEnabled x False) widgets @ mid
                   @ map (\<lambda>x. SetEnabled x True) widgets
             \<and> filter is_SetEnabled mid = []"
proof -
  let ?w0 = "setEnabled_all False w"
  from assms obtain r1 w1 where
    s: "run_entries fuel env (temp_VTI_offset self) (sequence_of self) ?w0 = Some (r1, w1)"
    by (cases "run_entries fuel env (temp_VTI_offset self) (sequence_of self) ?w0")
       (auto simp: running_def)
  from quiet_run_entries[OF s] obtain mid where
    m: "trace w1 = trace ?w0 @ mid" and f: "filter is_SetEnabled mid = []"
    by (auto simp: quiet_iff)
  from assms s consider "w' = setEnabled_all True w1"
    | "w' = setEnabled_all True (log Sig_aborted w1)"
    by (auto simp: running_def split: sum.splits if_splits)
  then show ?thesis
  proof cases
    case 1
    with m f show ?thesis by (simp add: setEnabled_all_def)
  next
    case 2
    with m have "trace w' = trace w @ map (\<lambda>x. SetEnabled x False) widgets @ (mid @ [Sig_aborted])
                   @ map (\<lambda>x. SetEnabled x True) widgets"
      by (simp add: setEnabled_all_def log_def)
    moreover from f have "filter is_SetEnabled (mid @ [Sig_aborted]) = []" by simp
    ultimately show ?thesis by blast
  qed
qed

theorem controls_disabled_and_enabled_once_witness:
  "running 0 (fault_at 1) (init_Sequence_Thread [mk_scan_T [10]]) w0 =
     Some (Inl (HardwareFault 1),
           \<lparr>trace = map (\<lambda>x. SetEnabled x False) widgets
                    @ [Gettoset_Temperature 5, SetTemperature]
                    @ map (\<lambda>x. SetEnabled x True) widgets,
            clock = 0, calls = 2, isRunning = True, source_current = 0\<rparr>)
   \<and> (\<exists>mid. [SetEnabled ITC_window False, SetEnabled ILM_window False, SetEnabled IPS_window False,
              SetEnabled LakeShore350_window False, Gettoset_Temperature 5, SetTemperature,
              SetEnabled ITC_window True, SetEnabled ILM_window True, SetEnabled IPS_window True,
              SetEnabled LakeShore350_window True]
            = map (\<lambda>x. SetEnabled x False) widgets @ mid @ map (\<lambda>x. SetEnabled x True) widgets
          \<and> filter is_SetEnabled mid = [])"
  using run_faulty controls_disabled_and_enabled_once[OF run_faulty]
  by (simp add: w0_def widgets_def)

end
